theory Spec2Isabelle
  imports Main "HOL-Library.AList" "HOL-Library.Char_ord" "HOL-Library.List_Lexorder"
begin

section \<open>Python values, strings and errors\<close>

text \<open>
  Message payloads are JSON documents decoded into Python values. A dictionary is kept as
  an association list (JSON keys are strings); \<open>dict.get\<close> reads the first entry of a
  key and gives \<open>None\<close> when the key is absent. Floating point numbers do not occur
  in the fields the parsers read and are left out.
\<close>

datatype pyval =
    PyNone
  | PyBool bool
  | PyInt int
  | PyStr string
  | PyList "pyval list"
  | PyDict "(string \<times> pyval) list"

text \<open>
  The errors the modelled code raises. \<open>InvariantViolation\<close> is the failure of
  \<open>record_build\<close> when the depends-on invariant does not hold.
\<close>

datatype py_error = AttributeError | IndexError | ValueError | InvariantViolation

text \<open>Truth value of a Python object, as \<open>if not x\<close> tests it.\<close>

fun truthy :: "pyval \<Rightarrow> bool" where
  "truthy PyNone = False"
| "truthy (PyBool b) = b"
| "truthy (PyInt i) = (i \<noteq> 0)"
| "truthy (PyStr s) = (s \<noteq> [])"
| "truthy (PyList xs) = (xs \<noteq> [])"
| "truthy (PyDict kvs) = (kvs \<noteq> [])"

text \<open>
  \<open>x.get(key)\<close>: on a dictionary the value of the key, or \<open>None\<close> when the key is
  absent. Only a dictionary has the method; on any other object Python raises
  AttributeError.
\<close>

definition dict_get :: "(string \<times> pyval) list \<Rightarrow> string \<Rightarrow> pyval" where
  "dict_get kvs k = (case map_of kvs k of None \<Rightarrow> PyNone | Some v \<Rightarrow> v)"

fun py_get :: "pyval \<Rightarrow> string \<Rightarrow> py_error + pyval" where
  "py_get (PyDict kvs) k = Inr (dict_get kvs k)"
| "py_get _ k = Inl AttributeError"

text \<open>\<open>s.endswith(suf)\<close>, \<open>s.rstrip(c)\<close> and \<open>s.strip(c)\<close> for a single character.\<close>

definition endswith :: "string \<Rightarrow> string \<Rightarrow> bool" where
  "endswith s suf = (length suf \<le> length s \<and> drop (length s - length suf) s = suf)"

definition rstrip :: "char \<Rightarrow> string \<Rightarrow> string" where
  "rstrip c s = rev (dropWhile (\<lambda>x. x = c) (rev s))"

definition strip :: "char \<Rightarrow> string \<Rightarrow> string" where
  "strip c s = rstrip c (dropWhile (\<lambda>x. x = c) s)"

text \<open>\<open>str(n)\<close> for an integer: decimal digits, with a minus sign when negative.\<close>

definition digit_char :: "nat \<Rightarrow> char" where
  "digit_char d = char_of (48 + d)"

fun show_nat :: "nat \<Rightarrow> string" where
  "show_nat n = (if n < 10 then [digit_char n] else show_nat (n div 10) @ [digit_char (n mod 10)])"

declare show_nat.simps [simp del]

definition show_int :: "int \<Rightarrow> string" where
  "show_int i = (if i < 0 then CHR ''-'' # show_nat (nat (- i)) else show_nat (nat i))"

section \<open>Configuration\<close>

text \<open>
  The fields of \<open>conf\<close> that the modelled code reads. \<open>container_repr\<close> stands for
  Python's \<open>str\<close> of a list or a dictionary, which depends on the interpreter version and
  is taken as a parameter.
\<close>

record config =
  messaging_topic_prefix :: "string list"
  git_base_url :: string
  container_repr :: "pyval \<Rightarrow> string"

text \<open>What \<open>%s\<close> substitutes for a value.\<close>

fun py_str :: "config \<Rightarrow> pyval \<Rightarrow> string" where
  "py_str conf PyNone = ''None''"
| "py_str conf (PyBool b) = (if b then ''True'' else ''False'')"
| "py_str conf (PyInt i) = show_int i"
| "py_str conf (PyStr s) = s"
| "py_str conf v = container_repr conf v"

section \<open>Events (events.py)\<close>

datatype event =
    ModuleBuilt pyval pyval pyval pyval pyval
  | ModuleMetadataUpdated (ev_msg_id: pyval) (ev_scm_url: string) (ev_branch: pyval)
  | TestingEvent pyval
  | DockerfileChanged pyval pyval pyval pyval pyval pyval

section \<open>Parsers and the parser registry (events.py)\<close>

text \<open>
  A parser object: its class attributes \<open>name\<close> and \<open>topic_suffixes\<close> and its two
  methods. \<open>parse\<close> gives an event, Python's \<open>None\<close>, or raises.
\<close>

record parser =
  name :: string
  topic_suffixes :: "string list"
  can_parse :: "string \<Rightarrow> pyval \<Rightarrow> bool"
  parse :: "string \<Rightarrow> pyval \<Rightarrow> py_error + event option"

text \<open>
  \<open>BaseEvent._parsers\<close> is a dictionary from parser name to parser object, iterated in
  insertion order: registering a name again replaces the object and keeps its place.
\<close>

type_synonym registry = "(string \<times> parser) list"

definition register_parser :: "parser \<Rightarrow> registry \<Rightarrow> registry" where
  "register_parser p reg = AList.update (name p) p reg"

definition parsers_values :: "registry \<Rightarrow> parser list" where
  "parsers_values reg = map snd reg"

text \<open>\<open>BaseEvent.get_parsed_topics\<close>.\<close>

definition get_parsed_topics :: "config \<Rightarrow> registry \<Rightarrow> string list" where
  "get_parsed_topics conf reg =
     (let topic_suffixes = concat (map topic_suffixes (parsers_values reg))
      in map (\<lambda>(pref, cat). rstrip CHR ''.'' pref @ ''.'' @ cat)
             (List.product (messaging_topic_prefix conf) topic_suffixes))"

text \<open>\<open>BaseEvent.from_fedmsg\<close>: the loop over \<open>_parsers.values()\<close>.\<close>

fun from_fedmsg_loop :: "parser list \<Rightarrow> string \<Rightarrow> pyval \<Rightarrow> py_error + event option" where
  "from_fedmsg_loop [] topic msg = Inr None"
| "from_fedmsg_loop (p # ps) topic msg =
     (if \<not> can_parse p topic msg then from_fedmsg_loop ps topic msg
      else parse p topic msg)"

definition from_fedmsg :: "registry \<Rightarrow> string \<Rightarrow> pyval \<Rightarrow> py_error + event option" where
  "from_fedmsg reg topic msg = from_fedmsg_loop (parsers_values reg) topic msg"

section \<open>GitReceiveParser (parsers/gitreceive.py)\<close>

definition GitReceiveParser_topic_suffixes :: "string list" where
  "GitReceiveParser_topic_suffixes = [''git.receive'']"

definition GitReceiveParser_can_parse :: "string \<Rightarrow> pyval \<Rightarrow> bool" where
  "GitReceiveParser_can_parse topic msg =
     (if \<not> list_ex (\<lambda>s. endswith topic s) GitReceiveParser_topic_suffixes then False
      else True)"

text \<open>
  \<open>GitReceiveParser.parse\<close>. The calls of \<open>log.debug\<close> write to the log only and are
  left out. Each \<open>.get\<close> may raise, which ends the function with that error.
\<close>

definition GitReceiveParser_parse :: "config \<Rightarrow> string \<Rightarrow> pyval \<Rightarrow> py_error + event option" where
  "GitReceiveParser_parse conf topic msg =
     (case py_get msg ''msg_id'' of Inl e \<Rightarrow> Inl e | Inr msg_id \<Rightarrow>
     (case py_get msg ''msg'' of Inl e \<Rightarrow> Inl e | Inr msg_inner_msg \<Rightarrow>
      if \<not> truthy msg_inner_msg then Inr None
      else
     (case py_get msg_inner_msg ''commit'' of Inl e \<Rightarrow> Inl e | Inr commit \<Rightarrow>
      if \<not> truthy commit then Inr None
      else
     (case py_get commit ''namespace'' of Inl e \<Rightarrow> Inl e | Inr namespace \<Rightarrow>
     (case py_get commit ''rev'' of Inl e \<Rightarrow> Inl e | Inr rev' \<Rightarrow>
     (case py_get commit ''repo'' of Inl e \<Rightarrow> Inl e | Inr repo \<Rightarrow>
     (case py_get commit ''branch'' of Inl e \<Rightarrow> Inl e | Inr branch \<Rightarrow>
      if namespace = PyStr ''modules'' then
        Inr (Some (ModuleMetadataUpdated msg_id
              (git_base_url conf @ ''/'' @ py_str conf namespace @ ''/'' @ py_str conf repo
                 @ ''.git?#'' @ py_str conf rev')
              branch))
      else Inr None)))))))"

definition GitReceiveParser :: "config \<Rightarrow> parser" where
  "GitReceiveParser conf =
     \<lparr> name = ''GitReceiveParser'',
       topic_suffixes = GitReceiveParser_topic_suffixes,
       can_parse = GitReceiveParser_can_parse,
       parse = GitReceiveParser_parse conf \<rparr>"

section \<open>Build records and the signed-RPM event\<close>

text \<open>
  Modelled from the spec: \<open>freshmaker.types\<close> is not among the sources. The spec names
  the artifact types RPM, MODULE and IMAGE and the build states PLANNED, BUILDING, DONE and
  FAILED. The handler stores \<open>ArtifactBuildState.PLANNED.value\<close>; the model stores the
  state itself.
\<close>

datatype ArtifactType = RPM | MODULE | IMAGE

datatype ArtifactBuildState = PLANNED | BUILDING | DONE | FAILED

text \<open>
  Modelled from the spec: \<open>BrewSignRPMEvent\<close> is imported by the handler and is not
  defined in the sources. The handler reads its \<open>nvr\<close>; \<open>msg_id\<close> comes from
  \<open>BaseEvent\<close>.
\<close>

record BrewSignRPMEvent =
  event_msg_id :: string
  event_nvr :: string

text \<open>The dictionary that \<open>_record_batches\<close> serialises into \<open>build_args\<close>.\<close>

record build_args =
  args_repository :: string
  args_commit :: string
  args_parent :: "string option"

text \<open>
  One row of the build table (spec, persisted build record fields). A build is identified
  by its position in the table; \<open>dep_on\<close> holds the position of the build it depends on.
\<close>

record ArtifactBuild =
  ab_name :: string
  ab_type :: ArtifactType
  ab_state :: ArtifactBuildState
  ab_event_id :: string
  ab_dep_on :: "nat option"
  ab_build_args :: "build_args option"
  ab_external_build_id :: int

type_synonym db = "ArtifactBuild list"

text \<open>
  Modelled from the spec: \<open>BaseHandler.record_build\<close> is not among the sources.
  \<open>record_build(event, name, type, external_id, depends_on, initial_state)\<close> creates and
  persists one ArtifactBuild and returns it, enforcing the depends-on invariant of the
  spec before commit: a build that \<open>depends_on\<close> refers to must be a persisted build of
  the same plan, that is a row of the table, hence one recorded earlier, whose event is the
  event of the call. On a violation nothing is persisted and the call fails. The batch
  index of the invariant is not among the arguments of the call nor among the persisted
  fields, so which batch a build comes from is decided by the caller's batch list.
\<close>

definition depends_on_ok :: "db \<Rightarrow> BrewSignRPMEvent \<Rightarrow> nat option \<Rightarrow> bool" where
  "depends_on_ok d event depends_on =
     (case depends_on of
        None \<Rightarrow> True
      | Some b \<Rightarrow> b < length d \<and> ab_event_id (d ! b) = event_msg_id event)"

definition record_build ::
  "db \<Rightarrow> BrewSignRPMEvent \<Rightarrow> string \<Rightarrow> ArtifactType \<Rightarrow> int \<Rightarrow> nat option \<Rightarrow> ArtifactBuildState
     \<Rightarrow> py_error + nat \<times> db" where
  "record_build d event nm ty external_id depends_on initial_state =
     (if depends_on_ok d event depends_on then
        Inr (length d,
             d @ [\<lparr> ab_name = nm, ab_type = ty, ab_state = initial_state,
                    ab_event_id = event_msg_id event, ab_dep_on = depends_on,
                    ab_build_args = None, ab_external_build_id = external_id \<rparr>])
      else Inl InvariantViolation)"

section \<open>Images and batches\<close>

text \<open>
  An image as the inventory service returns it: \<open>image["brew"]["build"]\<close>,
  \<open>image["parent"]\<close> (an image or \<open>None\<close>), \<open>image["repository"]\<close> and
  \<open>image["commit"]\<close>.
\<close>

datatype image =
  Image (brew_build: string) (parent: "image option") (repository: string) (commit: string)

section \<open>BrewSignRPMHandler (handlers/brew/sign_rpm.py)\<close>

subsection \<open>Recording batches\<close>

text \<open>
  \<open>_record_batches\<close>: the inner loop over the images of one batch and the outer loop
  over the batches. The state is the temporary dictionary \<open>builds\<close> and the table. The
  first component of the result is the error that ended the loops, if \<open>record_build\<close>
  raised one; the state is then the one reached before that call.
\<close>

fun record_batch ::
  "BrewSignRPMEvent \<Rightarrow> image list \<Rightarrow> (string \<rightharpoonup> nat) \<times> db
     \<Rightarrow> py_error option \<times> (string \<rightharpoonup> nat) \<times> db" where
  "record_batch event [] (builds, d) = (None, builds, d)"
| "record_batch event (img # batch) (builds, d) =
     (let nm = brew_build img;
          parent_name = (case parent img of None \<Rightarrow> None | Some p \<Rightarrow> Some (brew_build p));
          dep = (case parent_name of None \<Rightarrow> None | Some pn \<Rightarrow> builds pn)
      in case record_build d event nm IMAGE 0 dep PLANNED of
           Inl err \<Rightarrow> (Some err, builds, d)
         | Inr (build, d1) \<Rightarrow>
             (let d2 = d1[build := (d1 ! build)\<lparr> ab_build_args :=
                         Some \<lparr> args_repository = repository img, args_commit = commit img,
                                args_parent = parent_name \<rparr> \<rparr>]
              in record_batch event batch (builds(nm \<mapsto> build), d2)))"

fun record_batches_loop ::
  "BrewSignRPMEvent \<Rightarrow> image list list \<Rightarrow> (string \<rightharpoonup> nat) \<times> db
     \<Rightarrow> py_error option \<times> (string \<rightharpoonup> nat) \<times> db" where
  "record_batches_loop event [] st = (None, st)"
| "record_batches_loop event (batch # batches) st =
     (case record_batch event batch st of
        (Some err, st1) \<Rightarrow> (Some err, st1)
      | (None, st1) \<Rightarrow> record_batches_loop event batches st1)"

text \<open>The error raised, if any, and the table after the call.\<close>

definition record_batches :: "image list list \<Rightarrow> BrewSignRPMEvent \<Rightarrow> db \<Rightarrow> py_error option \<times> db" where
  "record_batches batches event d =
     (case record_batches_loop event batches (Map.empty, d) of
        (err, builds, d1) \<Rightarrow> (err, d1))"





subsection \<open>External services\<close>

record advisory =
  errata_id :: int
  advisory_name :: string

record compose =
  compose_id :: int
  result_repo :: string

text \<open>
  The collaborators of the handler, none of them among the sources: the Errata Tool, the
  rule check \<open>allow_build\<close> of \<open>BaseHandler\<close>, Pulp, LightBlue, the Koji session and
  the ODCS client. \<open>set_order\<close> is the order in which the running interpreter lists the
  elements of \<open>set(xs)\<close>; Python promises only that each element is listed once.
\<close>

record env =
  advisories_from_event :: "BrewSignRPMEvent \<Rightarrow> advisory list"
  allow_build :: "ArtifactType \<Rightarrow> string \<Rightarrow> bool"
  builds_signed :: "int \<Rightarrow> bool"
  get_pulp_repository_ids :: "int \<Rightarrow> string list"
  set_order :: "string list \<Rightarrow> string list"
  get_content_set_by_repo_ids :: "string list \<Rightarrow> string list"
  lb_find_images_to_rebuild :: "string \<Rightarrow> string list \<Rightarrow> image list list"
  get_build_rpms :: "string \<Rightarrow> string option \<Rightarrow> string list"
  listTags :: "string \<Rightarrow> string list"
  listTagged_latest :: "string \<Rightarrow> string \<Rightarrow> string list"
  parse_NVR_name :: "string \<Rightarrow> string"
  odcs_server_url :: string
  odcs_api_version :: string
  odcs_new_compose :: "string \<Rightarrow> string \<Rightarrow> string list \<Rightarrow> compose"

definition py_set_listing :: "('a list \<Rightarrow> 'a list) \<Rightarrow> bool" where
  "py_set_listing f = (\<forall>xs. distinct (f xs) \<and> set (f xs) = set xs)"

subsection \<open>Finding the images to rebuild\<close>

definition find_build_srpm_name :: "env \<Rightarrow> string \<Rightarrow> py_error + string" where
  "find_build_srpm_name e build_nvr =
     (let rpm_infos = get_build_rpms e build_nvr (Some ''src'')
      in case rpm_infos of [] \<Rightarrow> Inl ValueError | rpm # _ \<Rightarrow> Inr rpm)"

definition eligible_advisories :: "env \<Rightarrow> BrewSignRPMEvent \<Rightarrow> advisory list" where
  "eligible_advisories e event =
     filter (\<lambda>a. allow_build e IMAGE (advisory_name a)) (advisories_from_event e event)"

definition merge_pulp_repo_ids :: "env \<Rightarrow> advisory list \<Rightarrow> string list" where
  "merge_pulp_repo_ids e advisories =
     set_order e (concat (map (\<lambda>a. get_pulp_repository_ids e (errata_id a)) advisories))"

definition find_images_to_rebuild :: "env \<Rightarrow> BrewSignRPMEvent \<Rightarrow> py_error + image list list" where
  "find_images_to_rebuild e event =
     (let advisories = eligible_advisories e event
      in if advisories = [] then Inr []
         else if \<not> list_all (\<lambda>a. builds_signed e (errata_id a)) advisories then Inr []
         else
           let pulp_repo_ids = merge_pulp_repo_ids e advisories;
               content_sets = get_content_set_by_repo_ids e pulp_repo_ids
           in case find_build_srpm_name e (event_nvr event) of
                Inl err \<Rightarrow> Inl err
              | Inr srpm_name \<Rightarrow> Inr (lb_find_images_to_rebuild e srpm_name content_sets))"

subsection \<open>Preparing the yum repository\<close>

text \<open>
  A log record keeps the level, the format string and the arguments of the call, as
  Python's logging does. Records are modelled for \<open>_prepare_yum_repo\<close>, whose outcomes
  are told apart by what it logs; the other log calls of the handler are left out.
\<close>

datatype log_level = INFO | ERROR

datatype log_arg = LStr string | LStrs "string list"

record log_record =
  level :: log_level
  format :: string
  args :: "log_arg list"

definition log_info :: "string \<Rightarrow> log_arg list \<Rightarrow> log_record" where
  "log_info fmt as = \<lparr> level = INFO, format = fmt, args = as \<rparr>"

definition log_error :: "string \<Rightarrow> log_arg list \<Rightarrow> log_record" where
  "log_error fmt as = \<lparr> level = ERROR, format = fmt, args = as \<rparr>"

definition get_packages_for_compose :: "env \<Rightarrow> string \<Rightarrow> string list" where
  "get_packages_for_compose e nvr = set_order e (get_build_rpms e nvr None)"

definition get_compose_source :: "env \<Rightarrow> string \<Rightarrow> py_error + string option" where
  "get_compose_source e nvr =
     (case filter (\<lambda>t. endswith t ''-candidate'') (listTags e nvr) of
        [] \<Rightarrow> Inl IndexError
      | tag # _ \<Rightarrow>
          (let latest_build = listTagged_latest e tag (parse_NVR_name e nvr)
           in case latest_build of
                [] \<Rightarrow> Inr None
              | b # _ \<Rightarrow> if b = nvr then Inr (Some tag) else Inr None))"

text \<open>
  The \<open>while True\<close> loop. \<open>states\<close> holds the \<open>state\<close> fields answered by the
  successive calls of \<open>odcs.get_compose\<close>. The result is \<open>None\<close> when these answers
  end before the loop is left: the loop is then waiting for the next answer. Otherwise it
  is the log and whether the loop was left by \<open>break\<close> (\<open>True\<close>) or by \<open>return\<close>
  (\<open>False\<close>). The one-second sleep before each call is not modelled.
\<close>

fun wait_for_compose :: "string \<Rightarrow> int list \<Rightarrow> log_record list \<Rightarrow> (log_record list \<times> bool) option" where
  "wait_for_compose compose_url [] lg = None"
| "wait_for_compose compose_url (state # states) lg =
     (if state = 0 then
        wait_for_compose compose_url states (lg @ [log_info ''Waiting for generating new compose'' []])
      else if state = 1 then
        wait_for_compose compose_url states (lg @ [log_info ''ODCS is generating the compose'' []])
      else if state = 4 then
        Some (lg @ [log_error ''ODCS fails to generate compose: %s'' [LStr compose_url],
                    log_error ''Please consult ODCS to see what is wrong with it'' []], False)
      else if state = 2 then
        Some (lg @ [log_info ''ODCS has finished to generate compose. Continue to rebuild'' []], True)
      else
        Some (lg @ [log_error (''Got unexpected compose state '' @ show_int state @ '' from ODCS.'') []],
              False))"

definition compose_url_of :: "env \<Rightarrow> compose \<Rightarrow> string" where
  "compose_url_of e new_compose =
     strip CHR ''/'' (odcs_server_url e) @ ''/odcs/'' @ odcs_api_version e @ ''/composes/''
       @ show_int (compose_id new_compose)"

text \<open>
  \<open>_prepare_yum_repo\<close>. The outer \<open>None\<close> is the unfinished loop; \<open>Inl\<close> is a raised
  error; otherwise the log and the returned value (\<open>None\<close> or the repository URL).
\<close>

definition prepare_yum_repo ::
  "env \<Rightarrow> int list \<Rightarrow> BrewSignRPMEvent \<Rightarrow> (py_error + log_record list \<times> string option) option" where
  "prepare_yum_repo e states event =
     (let packages = get_packages_for_compose e (event_nvr event)
      in case get_compose_source e (event_nvr event) of
           Inl err \<Rightarrow> Some (Inl err)
         | Inr None \<Rightarrow>
             Some (Inr ([log_error ''Build %s is not the latest build in its all tags.''
                           [LStr (event_nvr event)]], None))
         | Inr (Some compose_source) \<Rightarrow>
             (let new_compose = odcs_new_compose e compose_source ''tag'' packages;
                  compose_url = compose_url_of e new_compose;
                  lg = [log_info (''Generate new compose for rebuild: ''
                                   @ ''source: %s, source type: %s, packages: %s'')
                          [LStr compose_source, LStr ''tag'', LStrs packages],
                        log_info ''Waiting for ODCS to finish the compose: %s'' [LStr compose_url]]
              in case wait_for_compose compose_url states lg of
                   None \<Rightarrow> None
                 | Some (lg1, False) \<Rightarrow> Some (Inr (lg1, None))
                 | Some (lg1, True) \<Rightarrow>
                     Some (Inr (lg1 @ [log_info ''Repo URL containing packages used to rebuild container: %s''
                                         [LStr (result_repo new_compose)]],
                                Some (result_repo new_compose)))))"

subsection \<open>Handling the event\<close>

text \<open>
  \<open>handle\<close>: the table after the call, and the returned list of events or the raised
  error. What is recorded before an error stays recorded, each build being committed on
  its own.
\<close>

definition handle ::
  "env \<Rightarrow> int list \<Rightarrow> db \<Rightarrow> BrewSignRPMEvent \<Rightarrow> (db \<times> (py_error + event list)) option" where
  "handle e states d event =
     (case find_images_to_rebuild e event of
        Inl err \<Rightarrow> Some (d, Inl err)
      | Inr batches \<Rightarrow>
          if batches = [] then Some (d, Inr [])
          else
            (case record_batches batches event d of
               (Some err, d1) \<Rightarrow> Some (d1, Inl err)
             | (None, d1) \<Rightarrow>
                 (case prepare_yum_repo e states event of
                    None \<Rightarrow> None
                  | Some (Inl err) \<Rightarrow> Some (d1, Inl err)
                  | Some (Inr repo_url) \<Rightarrow> Some (d1, Inr []))))"

section \<open>Sample inputs\<close>

text \<open>The configuration shipped in \<open>conf/config.py\<close>.\<close>

definition sample_conf :: config where
  "sample_conf =
     \<lparr> messaging_topic_prefix = [''org.fedoraproject.prod''],
       git_base_url = ''git://pkgs.fedoraproject.org'',
       container_repr = (\<lambda>v. ''?'') \<rparr>"

text \<open>The same configuration with a topic prefix that ends in a dot.\<close>

definition dotted_conf :: config where
  "dotted_conf = sample_conf \<lparr> messaging_topic_prefix := [''org.fedoraproject.prod.''] \<rparr>"

text \<open>What the spec's words give for the subscription set: prefix, a dot, suffix.\<close>

definition spec_parsed_topics :: "config \<Rightarrow> registry \<Rightarrow> string list" where
  "spec_parsed_topics conf reg =
     map (\<lambda>(pref, suf). pref @ ''.'' @ suf)
       (List.product (messaging_topic_prefix conf)
          (concat (map topic_suffixes (parsers_values reg))))"

text \<open>The message of the spec's example, and a push to a package repository.\<close>

definition modules_commit_msg :: pyval where
  "modules_commit_msg =
     PyDict [(''msg'', PyDict [(''commit'',
        PyDict [(''namespace'', PyStr ''modules''), (''repo'', PyStr ''foo''),
                (''branch'', PyStr ''master''), (''rev'', PyStr ''abc123'')])])]"

definition rpms_commit_msg :: pyval where
  "rpms_commit_msg =
     PyDict [(''msg_id'', PyStr ''2017-1''), (''msg'', PyDict [(''commit'',
        PyDict [(''namespace'', PyStr ''rpms''), (''repo'', PyStr ''bash''),
                (''branch'', PyStr ''master''), (''rev'', PyStr ''123'')])])]"

text \<open>A second parser that also accepts topics ending in \<open>receive\<close>.\<close>

definition ReceiveParser :: parser where
  "ReceiveParser =
     \<lparr> name = ''ReceiveParser'',
       topic_suffixes = [''receive''],
       can_parse = (\<lambda>topic msg. endswith topic ''receive''),
       parse = (\<lambda>topic msg. Inr (Some (TestingEvent (PyStr ''2017-1'')))) \<rparr>"

definition two_parsers :: registry where
  "two_parsers = register_parser ReceiveParser (register_parser (GitReceiveParser sample_conf) [])"

text \<open>The images of the spec's example: \<open>X\<close> without parent, \<open>Y\<close> built on \<open>X\<close>.\<close>

definition image_X :: image where
  "image_X = Image ''X'' None ''repo/x'' ''c1''"

definition image_Y :: image where
  "image_Y = Image ''Y'' (Some image_X) ''repo/y'' ''c2''"

definition sample_event :: BrewSignRPMEvent where
  "sample_event = \<lparr> event_msg_id = ''msg-1'', event_nvr = ''bash-4.4-1.fc30'' \<rparr>"

text \<open>
  The services of the spec's example: one advisory, allowed and fully signed, two
  repositories of one content set, and the two images in two batches.
\<close>

definition sample_env :: env where
  "sample_env =
     \<lparr> advisories_from_event = (\<lambda>ev. [\<lparr> errata_id = 1, advisory_name = ''RHSA-2020-0001'' \<rparr>]),
       allow_build = (\<lambda>ty nm. True),
       builds_signed = (\<lambda>i. True),
       get_pulp_repository_ids = (\<lambda>i. [''repo-a'', ''repo-b'', ''repo-a'']),
       set_order = remdups,
       get_content_set_by_repo_ids = (\<lambda>ids. [''cs1'']),
       lb_find_images_to_rebuild = (\<lambda>srpm cs. [[image_X], [image_Y]]),
       get_build_rpms = (\<lambda>nvr arches. [''bash'']),
       listTags = (\<lambda>nvr. [''f30-candidate'']),
       listTagged_latest = (\<lambda>tag pkg. [''bash-4.4-1.fc30'']),
       parse_NVR_name = (\<lambda>nvr. ''bash''),
       odcs_server_url = ''https://odcs.example.com/'',
       odcs_api_version = ''1'',
       odcs_new_compose = (\<lambda>src ty pkgs.
          \<lparr> compose_id = 7, result_repo = ''https://odcs.example.com/composes/7/repo'' \<rparr>) \<rparr>"

text \<open>The same services when the advisory still has unsigned builds.\<close>

definition unsigned_env :: env where
  "unsigned_env = sample_env \<lparr> builds_signed := (\<lambda>i. False) \<rparr>"

text \<open>The same services in an interpreter that lists a set the other way round.\<close>

definition reversed_env :: env where
  "reversed_env = sample_env \<lparr> set_order := (\<lambda>xs. rev (remdups xs)) \<rparr>"

section \<open>Auxiliary notions for the proofs\<close>

text \<open>The row that one turn of the inner loop of \<open>_record_batches\<close> adds to the table.\<close>

definition new_row :: "BrewSignRPMEvent \<Rightarrow> (string \<rightharpoonup> nat) \<Rightarrow> image \<Rightarrow> ArtifactBuild" where
  "new_row event builds img =
     \<lparr> ab_name = brew_build img, ab_type = IMAGE, ab_state = PLANNED,
       ab_event_id = event_msg_id event,
       ab_dep_on = (case parent img of None \<Rightarrow> None | Some p \<Rightarrow> builds (brew_build p)),
       ab_build_args = Some \<lparr> args_repository = repository img, args_commit = commit img,
                         args_parent = map_option brew_build (parent img) \<rparr>,
       ab_external_build_id = 0 \<rparr>"

text \<open>
  The loop invariant of \<open>_record_batches\<close>, after the images \<open>imgs\<close> have been recorded
  on top of the table \<open>d\<close> starting from an empty \<open>builds\<close>: no error was raised, there
  is one row per image, the old rows are untouched, \<open>builds\<close> points at recorded rows of
  the right name, every new row belongs to the event, and every dependency points at an
  earlier recorded row that carries the parent's name.
\<close>

definition recorded_ok ::
  "BrewSignRPMEvent \<Rightarrow> db \<Rightarrow> image list \<Rightarrow> py_error option \<times> (string \<rightharpoonup> nat) \<times> db \<Rightarrow> bool" where
  "recorded_ok event d imgs res \<longleftrightarrow>
     fst res = None
   \<and> length (snd (snd res)) = length d + length imgs
   \<and> take (length d) (snd (snd res)) = d
   \<and> (\<forall>n b. fst (snd res) n = Some b \<longrightarrow>
         (\<exists>i < length imgs. b = length d + i \<and> brew_build (imgs ! i) = n))
   \<and> (\<forall>k < length imgs.
        ab_state (snd (snd res) ! (length d + k)) = PLANNED
      \<and> ab_external_build_id (snd (snd res) ! (length d + k)) = 0
      \<and> ab_type (snd (snd res) ! (length d + k)) = IMAGE
      \<and> ab_name (snd (snd res) ! (length d + k)) = brew_build (imgs ! k)
      \<and> ab_event_id (snd (snd res) ! (length d + k)) = event_msg_id event
      \<and> (\<forall>b. ab_dep_on (snd (snd res) ! (length d + k)) = Some b \<longrightarrow>
            (\<exists>i < k. \<exists>p. b = length d + i \<and> parent (imgs ! k) = Some p
                \<and> brew_build (imgs ! i) = brew_build p)))"

section \<open>Strings\<close>

lemma endswith_iff: "endswith s suf \<longleftrightarrow> (\<exists>pre. s = pre @ suf)"
  unfolding endswith_def
  by (metis append_eq_conv_conj append_take_drop_id diff_add_inverse2 le_add2 length_append length_drop)

lemma rstrip_id: "\<not> endswith s [c] \<Longrightarrow> rstrip c s = s"
  unfolding rstrip_def endswith_iff
  by (cases s rule: rev_cases) auto

lemma dict_get_nonempty: "dict_get kvs k \<noteq> PyNone \<Longrightarrow> kvs \<noteq> []"
  by (auto simp: dict_get_def)

section \<open>Classification of messages\<close>

lemma from_fedmsg_loop_find:
  "from_fedmsg_loop ps topic msg =
     (case find (\<lambda>p. can_parse p topic msg) ps of
        None \<Rightarrow> Inr None
      | Some p \<Rightarrow> parse p topic msg)"
  by (induction ps) auto

text \<open>
  C1 (corrected). The claim says that a parser which accepts the message and returns
  \<open>None\<close> from \<open>parse\<close> counts as no match and that the remaining parsers are then
  tried. The loop of \<open>from_fedmsg\<close> returns the result of \<open>parse\<close> of the first parser,
  in registration order, whose \<open>can_parse\<close> is true, whether that result is an event or
  \<open>None\<close>; no later parser is consulted. It returns \<open>None\<close> as well when no parser
  accepts the message.
\<close>

theorem from_fedmsg_first_able_parser:
  "from_fedmsg reg topic msg =
     (case find (\<lambda>p. can_parse p topic msg) (parsers_values reg) of
        None \<Rightarrow> Inr None
      | Some p \<Rightarrow> parse p topic msg)"
  by (simp add: from_fedmsg_def from_fedmsg_loop_find)

text \<open>
  With GitReceiveParser registered before a second parser that accepts the same topic, a
  push to the \<open>rpms\<close> namespace is classified as \<open>None\<close> although the second parser
  accepts the message and produces an event for it.
\<close>

theorem from_fedmsg_stops_at_first_counterexample:
  "from_fedmsg two_parsers ''org.fedoraproject.prod.git.receive'' rpms_commit_msg = Inr None
   \<and> ReceiveParser \<in> set (parsers_values two_parsers)
   \<and> can_parse ReceiveParser ''org.fedoraproject.prod.git.receive'' rpms_commit_msg
   \<and> parse ReceiveParser ''org.fedoraproject.prod.git.receive'' rpms_commit_msg
        = Inr (Some (TestingEvent (PyStr ''2017-1'')))"
  by (simp add: from_fedmsg_def two_parsers_def register_parser_def parsers_values_def
      ReceiveParser_def GitReceiveParser_def GitReceiveParser_can_parse_def
      GitReceiveParser_topic_suffixes_def GitReceiveParser_parse_def endswith_def
      rpms_commit_msg_def dict_get_def sample_conf_def)

theorem from_fedmsg_first_able_parser_witness:
  "from_fedmsg two_parsers ''org.fedoraproject.prod.git.receive'' rpms_commit_msg
     = parse (GitReceiveParser sample_conf) ''org.fedoraproject.prod.git.receive'' rpms_commit_msg"
  using from_fedmsg_first_able_parser
          [of two_parsers "''org.fedoraproject.prod.git.receive''" rpms_commit_msg]
  by (simp add: two_parsers_def register_parser_def parsers_values_def
      ReceiveParser_def GitReceiveParser_def GitReceiveParser_can_parse_def
      GitReceiveParser_topic_suffixes_def endswith_def)

section \<open>The subscription set\<close>

text \<open>
  C6 (corrected). The claim gives the subscription set as prefix, dot, suffix for every
  configured prefix and every suffix of a registered parser. \<open>get_parsed_topics\<close> first
  strips the trailing dots of the prefix (\<open>pref.rstrip('.')\<close>): the set is that of the
  strings stripped prefix, dot, suffix. It is the set of the claim when no configured
  prefix ends in a dot.
\<close>

theorem get_parsed_topics_set:
  "set (get_parsed_topics conf reg) =
     {rstrip CHR ''.'' pref @ ''.'' @ suf | pref suf.
        pref \<in> set (messaging_topic_prefix conf) \<and>
        (\<exists>p \<in> set (parsers_values reg). suf \<in> set (topic_suffixes p))}
   \<and> ((\<forall>pref \<in> set (messaging_topic_prefix conf). \<not> endswith pref ''.'') \<longrightarrow>
        set (get_parsed_topics conf reg) = set (spec_parsed_topics conf reg))"
proof
  show "set (get_parsed_topics conf reg) =
     {rstrip CHR ''.'' pref @ ''.'' @ suf | pref suf.
        pref \<in> set (messaging_topic_prefix conf) \<and>
        (\<exists>p \<in> set (parsers_values reg). suf \<in> set (topic_suffixes p))}"
    by (auto simp: get_parsed_topics_def Let_def image_iff)
  show "(\<forall>pref \<in> set (messaging_topic_prefix conf). \<not> endswith pref ''.'') \<longrightarrow>
        set (get_parsed_topics conf reg) = set (spec_parsed_topics conf reg)"
  proof
    assume nodot: "\<forall>pref \<in> set (messaging_topic_prefix conf). \<not> endswith pref ''.''"
    have "map (\<lambda>(pref, cat). rstrip CHR ''.'' pref @ ''.'' @ cat)
            (List.product (messaging_topic_prefix conf) sufs)
        = map (\<lambda>(pref, suf). pref @ ''.'' @ suf)
            (List.product (messaging_topic_prefix conf) sufs)" for sufs
    proof (rule map_cong[OF refl])
      fix x assume "x \<in> set (List.product (messaging_topic_prefix conf) sufs)"
      then have "\<not> endswith (fst x) ''.''" using nodot by auto
      then show "(case x of (pref, cat) \<Rightarrow> rstrip CHR ''.'' pref @ ''.'' @ cat)
               = (case x of (pref, suf) \<Rightarrow> pref @ ''.'' @ suf)"
        by (cases x) (simp add: rstrip_id)
    qed
    then show "set (get_parsed_topics conf reg) = set (spec_parsed_topics conf reg)"
      unfolding get_parsed_topics_def spec_parsed_topics_def Let_def by (simp only:)
  qed
qed

theorem get_parsed_topics_set_witness:
  "messaging_topic_prefix sample_conf = [''org.fedoraproject.prod'']
   \<and> \<not> endswith ''org.fedoraproject.prod'' ''.''
   \<and> set (get_parsed_topics sample_conf (register_parser (GitReceiveParser sample_conf) []))
       = {''org.fedoraproject.prod.git.receive''}"
proof -
  have h: "\<forall>pref \<in> set (messaging_topic_prefix sample_conf). \<not> endswith pref ''.''"
    by (simp add: sample_conf_def endswith_def)
  have "set (spec_parsed_topics sample_conf (register_parser (GitReceiveParser sample_conf) []))
          = {''org.fedoraproject.prod.git.receive''}"
    by (simp add: spec_parsed_topics_def sample_conf_def register_parser_def parsers_values_def
        GitReceiveParser_def GitReceiveParser_topic_suffixes_def)
  moreover from h get_parsed_topics_set
         [of sample_conf "register_parser (GitReceiveParser sample_conf) []"]
  have "set (get_parsed_topics sample_conf (register_parser (GitReceiveParser sample_conf) []))
      = set (spec_parsed_topics sample_conf (register_parser (GitReceiveParser sample_conf) []))"
    by blast
  moreover have "messaging_topic_prefix sample_conf = [''org.fedoraproject.prod'']"
    by (simp add: sample_conf_def)
  moreover have "\<not> endswith ''org.fedoraproject.prod'' ''.''"
    by (simp add: endswith_def)
  ultimately show ?thesis by simp
qed

text \<open>
  With the prefix \<open>org.fedoraproject.prod.\<close> the code subscribes to
  \<open>org.fedoraproject.prod.git.receive\<close>, the claim's set holds
  \<open>org.fedoraproject.prod..git.receive\<close>.
\<close>

theorem get_parsed_topics_dotted_prefix_counterexample:
  "set (get_parsed_topics dotted_conf (register_parser (GitReceiveParser dotted_conf) []))
     \<noteq> set (spec_parsed_topics dotted_conf (register_parser (GitReceiveParser dotted_conf) []))"
  by (simp add: get_parsed_topics_def spec_parsed_topics_def dotted_conf_def sample_conf_def
      register_parser_def parsers_values_def GitReceiveParser_def
      GitReceiveParser_topic_suffixes_def rstrip_def)

section \<open>GitReceiveParser\<close>

text \<open>
  C9 (confirmed). \<open>GitReceiveParser.can_parse\<close> is true exactly when the topic ends
  with \<open>git.receive\<close>, and its result is the same for any two payloads.
\<close>

theorem GitReceiveParser_can_parse_topic_only:
  "(can_parse (GitReceiveParser conf) topic msg \<longleftrightarrow> (\<exists>pre. topic = pre @ ''git.receive''))
   \<and> can_parse (GitReceiveParser conf) topic msg = can_parse (GitReceiveParser conf) topic msg'"
  by (simp add: GitReceiveParser_def GitReceiveParser_can_parse_def
      GitReceiveParser_topic_suffixes_def endswith_iff)

theorem GitReceiveParser_can_parse_topic_only_witness:
  "can_parse (GitReceiveParser sample_conf) ''org.fedoraproject.prod.git.receive'' PyNone
   \<and> \<not> can_parse (GitReceiveParser sample_conf) ''org.fedoraproject.prod.git.push'' modules_commit_msg"
proof -
  have "\<not> (\<exists>pre. ''org.fedoraproject.prod.git.push'' = pre @ ''git.receive'')"
    unfolding endswith_iff[symmetric] by (simp add: endswith_def)
  moreover have "\<exists>pre. ''org.fedoraproject.prod.git.receive'' = pre @ ''git.receive''"
    unfolding endswith_iff[symmetric] by (simp add: endswith_def)
  ultimately show ?thesis
    using GitReceiveParser_can_parse_topic_only
            [of sample_conf "''org.fedoraproject.prod.git.receive''" PyNone PyNone]
          GitReceiveParser_can_parse_topic_only
            [of sample_conf "''org.fedoraproject.prod.git.push''" modules_commit_msg PyNone]
    by blast
qed

lemma GitReceiveParser_parse_modules:
  assumes "dict_get kvs ''msg'' = PyDict m" and "dict_get m ''commit'' = PyDict c"
    and "dict_get c ''namespace'' = PyStr ''modules''"
  shows "GitReceiveParser_parse conf topic (PyDict kvs) =
     Inr (Some (ModuleMetadataUpdated (dict_get kvs ''msg_id'')
        (git_base_url conf @ ''/modules/'' @ py_str conf (dict_get c ''repo'') @ ''.git?#''
           @ py_str conf (dict_get c ''rev''))
        (dict_get c ''branch'')))"
  using assms dict_get_nonempty[of kvs "''msg''"] dict_get_nonempty[of m "''commit''"]
    dict_get_nonempty[of c "''namespace''"]
  by (simp add: GitReceiveParser_parse_def)

text \<open>
  C7 (confirmed). With GitReceiveParser registered, a message with the topic
  \<open>org.fedoraproject.prod.git.receive\<close> whose payload holds, under \<open>msg\<close>, a commit
  with namespace \<open>modules\<close>, repo \<open>foo\<close>, branch \<open>master\<close> and rev \<open>abc123\<close> is
  classified as a ModuleMetadataUpdated event with branch \<open>master\<close>; its scm_url is
  \<open>git_base_url\<close> followed by \<open>/modules/foo.git?#abc123\<close> and so ends with
  \<open>foo.git?#abc123\<close>.
\<close>

theorem from_fedmsg_modules_commit:
  assumes "dict_get kvs ''msg'' = PyDict m" and "dict_get m ''commit'' = PyDict c"
    and "dict_get c ''namespace'' = PyStr ''modules''"
    and "dict_get c ''repo'' = PyStr ''foo''"
    and "dict_get c ''branch'' = PyStr ''master''"
    and "dict_get c ''rev'' = PyStr ''abc123''"
  shows "\<exists>url. from_fedmsg (register_parser (GitReceiveParser conf) [])
             ''org.fedoraproject.prod.git.receive'' (PyDict kvs)
           = Inr (Some (ModuleMetadataUpdated (dict_get kvs ''msg_id'') url (PyStr ''master'')))
         \<and> url = git_base_url conf @ ''/modules/foo.git?#abc123''
         \<and> endswith url ''foo.git?#abc123''"
proof -
  have cp: "can_parse (GitReceiveParser conf) ''org.fedoraproject.prod.git.receive'' (PyDict kvs)"
    by (simp add: GitReceiveParser_def GitReceiveParser_can_parse_def
        GitReceiveParser_topic_suffixes_def endswith_def)
  have "from_fedmsg (register_parser (GitReceiveParser conf) [])
             ''org.fedoraproject.prod.git.receive'' (PyDict kvs)
        = GitReceiveParser_parse conf ''org.fedoraproject.prod.git.receive'' (PyDict kvs)"
    using cp by (simp add: from_fedmsg_def register_parser_def parsers_values_def)
       (simp add: GitReceiveParser_def)
  moreover have "endswith (git_base_url conf @ ''/modules/foo.git?#abc123'') ''foo.git?#abc123''"
    unfolding endswith_iff by (rule exI[of _ "git_base_url conf @ ''/modules/''"]) simp
  ultimately show ?thesis
    using GitReceiveParser_parse_modules
            [OF assms(1,2,3), of conf "''org.fedoraproject.prod.git.receive''"] assms(4,5,6)
    by simp
qed

theorem from_fedmsg_modules_commit_witness:
  "from_fedmsg (register_parser (GitReceiveParser sample_conf) [])
             ''org.fedoraproject.prod.git.receive'' modules_commit_msg
     = Inr (Some (ModuleMetadataUpdated PyNone
          ''git://pkgs.fedoraproject.org/modules/foo.git?#abc123'' (PyStr ''master'')))"
  using from_fedmsg_modules_commit[of "[(''msg'', PyDict [(''commit'',
        PyDict [(''namespace'', PyStr ''modules''), (''repo'', PyStr ''foo''),
                (''branch'', PyStr ''master''), (''rev'', PyStr ''abc123'')])])]"
        "[(''commit'',
        PyDict [(''namespace'', PyStr ''modules''), (''repo'', PyStr ''foo''),
                (''branch'', PyStr ''master''), (''rev'', PyStr ''abc123'')])]"
        "[(''namespace'', PyStr ''modules''), (''repo'', PyStr ''foo''),
                (''branch'', PyStr ''master''), (''rev'', PyStr ''abc123'')]" sample_conf]
  by (simp add: dict_get_def modules_commit_msg_def sample_conf_def)

text \<open>
  What the two truth tests of \<open>parse\<close> achieve. For a payload that is a dictionary,
  \<open>parse\<close> returns \<open>None\<close> without raising when the value under \<open>msg\<close> is absent or
  false (\<open>None\<close>, an empty mapping, an empty string, zero), when \<open>msg\<close> is a mapping
  whose \<open>commit\<close> is absent or false, and when \<open>commit\<close> is a mapping whose namespace
  is not \<open>modules\<close>. An event is produced only when \<open>msg\<close> and \<open>commit\<close> are mappings
  and the namespace is \<open>modules\<close>.
\<close>

lemma GitReceiveParser_parse_skips:
  "(\<not> truthy (dict_get kvs ''msg'') \<longrightarrow>
      GitReceiveParser_parse conf topic (PyDict kvs) = Inr None)
   \<and> (dict_get kvs ''msg'' = PyDict m \<and> \<not> truthy (dict_get m ''commit'') \<longrightarrow>
      GitReceiveParser_parse conf topic (PyDict kvs) = Inr None)
   \<and> (dict_get kvs ''msg'' = PyDict m \<and> dict_get m ''commit'' = PyDict c
          \<and> dict_get c ''namespace'' \<noteq> PyStr ''modules'' \<longrightarrow>
      GitReceiveParser_parse conf topic (PyDict kvs) = Inr None)
   \<and> (GitReceiveParser_parse conf topic msg = Inr (Some ev) \<longrightarrow>
        (\<exists>kvs' m' c'. msg = PyDict kvs' \<and> dict_get kvs' ''msg'' = PyDict m'
           \<and> dict_get m' ''commit'' = PyDict c'
           \<and> dict_get c' ''namespace'' = PyStr ''modules''))"
proof (intro conjI impI)
  assume "\<not> truthy (dict_get kvs ''msg'')"
  then show "GitReceiveParser_parse conf topic (PyDict kvs) = Inr None"
    by (simp add: GitReceiveParser_parse_def)
next
  assume "dict_get kvs ''msg'' = PyDict m \<and> \<not> truthy (dict_get m ''commit'')"
  then show "GitReceiveParser_parse conf topic (PyDict kvs) = Inr None"
    by (simp add: GitReceiveParser_parse_def)
next
  assume "dict_get kvs ''msg'' = PyDict m \<and> dict_get m ''commit'' = PyDict c
          \<and> dict_get c ''namespace'' \<noteq> PyStr ''modules''"
  then show "GitReceiveParser_parse conf topic (PyDict kvs) = Inr None"
    by (simp add: GitReceiveParser_parse_def)
next
  assume a: "GitReceiveParser_parse conf topic msg = Inr (Some ev)"
  then obtain kvs' where m: "msg = PyDict kvs'"
    by (cases msg) (simp_all add: GitReceiveParser_parse_def)
  from a m obtain mm where mm: "dict_get kvs' ''msg'' = PyDict mm"
    by (cases "dict_get kvs' ''msg''") (simp_all add: GitReceiveParser_parse_def split: if_splits)
  from a m mm obtain cc where c: "dict_get mm ''commit'' = PyDict cc"
    by (cases "dict_get mm ''commit''") (simp_all add: GitReceiveParser_parse_def split: if_splits)
  from a m mm c have "dict_get cc ''namespace'' = PyStr ''modules''"
    by (simp add: GitReceiveParser_parse_def split: if_splits)
  with m mm c show "\<exists>kvs' m' c'. msg = PyDict kvs' \<and> dict_get kvs' ''msg'' = PyDict m'
           \<and> dict_get m' ''commit'' = PyDict c'
           \<and> dict_get c' ''namespace'' = PyStr ''modules''" by blast
qed

text \<open>
  C10 (code bug). The claim says that \<open>parse\<close> returns \<open>None\<close> and never raises for every
  payload without a \<open>msg\<close> mapping or without a \<open>commit\<close> inside it, and the comment in
  \<open>parse\<close> says the same: a message without a msg dict can be skipped. The code tests
  the truth of the value, not whether it is a mapping. A payload whose \<open>msg\<close> is the
  string \<open>hello\<close> has no \<open>msg\<close> mapping; the string passes the test and
  \<open>msg_inner_msg.get('commit')\<close> raises AttributeError. The same happens one level
  down for a \<open>commit\<close> that is a string.
\<close>

theorem GitReceiveParser_parse_raises:
  "GitReceiveParser_parse sample_conf ''org.fedoraproject.prod.git.receive''
     (PyDict [(''msg'', PyStr ''hello'')]) = Inl AttributeError
   \<and> GitReceiveParser_parse sample_conf ''org.fedoraproject.prod.git.receive''
     (PyDict [(''msg'', PyDict [(''commit'', PyStr ''abc123'')])]) = Inl AttributeError"
  by (simp add: GitReceiveParser_parse_def dict_get_def)

section \<open>Finding the images to rebuild\<close>

lemma py_set_listing_remdups: "py_set_listing remdups"
  by (simp add: py_set_listing_def)

lemma py_set_listing_rev_remdups: "py_set_listing (\<lambda>xs. rev (remdups xs))"
  by (simp add: py_set_listing_def)

text \<open>
  C3 (confirmed). When some eligible advisory (so at least one exists) has builds that are
  not all signed, \<open>_find_images_to_rebuild\<close> returns the empty batch list without
  raising, and \<open>handle\<close> returns with the build table unchanged, whatever the compose
  service would answer.
\<close>

theorem find_images_to_rebuild_unsigned:
  assumes "\<exists>a \<in> set (eligible_advisories e event). \<not> builds_signed e (errata_id a)"
  shows "find_images_to_rebuild e event = Inr [] \<and> handle e states d event = Some (d, Inr [])"
proof -
  from assms have ne: "eligible_advisories e event \<noteq> []" by auto
  from assms have ns: "\<not> list_all (\<lambda>a. builds_signed e (errata_id a)) (eligible_advisories e event)"
    by (auto simp: list_all_iff)
  have "find_images_to_rebuild e event = Inr []"
    using ne ns by (simp add: find_images_to_rebuild_def Let_def)
  then show ?thesis by (simp add: handle_def)
qed

theorem find_images_to_rebuild_unsigned_witness:
  "(\<exists>a \<in> set (eligible_advisories unsigned_env sample_event).
        \<not> builds_signed unsigned_env (errata_id a))
   \<and> find_images_to_rebuild unsigned_env sample_event = Inr []
   \<and> handle unsigned_env [0, 1, 1, 2] [] sample_event = Some ([], Inr [])"
proof -
  have h: "\<exists>a \<in> set (eligible_advisories unsigned_env sample_event).
             \<not> builds_signed unsigned_env (errata_id a)"
    by (simp add: eligible_advisories_def unsigned_env_def sample_env_def)
  show ?thesis
    using h find_images_to_rebuild_unsigned[OF h, of "[0, 1, 1, 2]" "[]"] by simp
qed

text \<open>
  C5 (corrected). The claim says that the merged list of pulp repository ids is
  deduplicated and sorted, hence the same in every run. The code builds it with
  \<open>list(set(chain(...)))\<close> and never sorts: the list holds every id returned for some
  eligible advisory exactly once, in the order in which the set happens to list its
  elements.
\<close>

theorem merge_pulp_repo_ids_distinct:
  assumes "py_set_listing (set_order e)"
  shows "distinct (merge_pulp_repo_ids e advisories)
       \<and> set (merge_pulp_repo_ids e advisories)
           = (\<Union>a \<in> set advisories. set (get_pulp_repository_ids e (errata_id a)))"
  using assms by (auto simp: py_set_listing_def merge_pulp_repo_ids_def)

theorem merge_pulp_repo_ids_distinct_witness:
  "py_set_listing (set_order sample_env)
   \<and> distinct (merge_pulp_repo_ids sample_env (eligible_advisories sample_env sample_event))
   \<and> set (merge_pulp_repo_ids sample_env (eligible_advisories sample_env sample_event))
        = {''repo-a'', ''repo-b''}"
proof -
  have h: "py_set_listing (set_order sample_env)"
    by (simp add: sample_env_def py_set_listing_remdups)
  show ?thesis
    using h merge_pulp_repo_ids_distinct[OF h, of "eligible_advisories sample_env sample_event"]
    by (auto simp: eligible_advisories_def sample_env_def)
qed

text \<open>
  Two interpreters that list the elements of a set in different orders, both within what
  Python promises: the merged list of the first is not sorted, and the two lists differ
  on the same lookups.
\<close>

theorem merge_pulp_repo_ids_unsorted_counterexample:
  "py_set_listing (set_order sample_env) \<and> py_set_listing (set_order reversed_env)
   \<and> \<not> sorted (merge_pulp_repo_ids sample_env (eligible_advisories sample_env sample_event))
   \<and> merge_pulp_repo_ids sample_env (eligible_advisories sample_env sample_event)
       \<noteq> merge_pulp_repo_ids reversed_env (eligible_advisories reversed_env sample_event)"
proof -
  have "merge_pulp_repo_ids sample_env (eligible_advisories sample_env sample_event)
          = [''repo-b'', ''repo-a'']"
    by (simp add: merge_pulp_repo_ids_def eligible_advisories_def sample_env_def)
  moreover have "merge_pulp_repo_ids reversed_env (eligible_advisories reversed_env sample_event)
          = [''repo-a'', ''repo-b'']"
    by (simp add: merge_pulp_repo_ids_def eligible_advisories_def sample_env_def reversed_env_def)
  moreover have "\<not> sorted [''repo-b'', ''repo-a'']"
    by simp
  moreover have "py_set_listing (set_order sample_env)" "py_set_listing (set_order reversed_env)"
    by (simp_all add: sample_env_def reversed_env_def py_set_listing_remdups
        py_set_listing_rev_remdups)
  ultimately show ?thesis by simp
qed

section \<open>Waiting for the compose\<close>

lemma wait_for_compose_waiting:
  "set ws \<subseteq> {0, 1} \<Longrightarrow>
   wait_for_compose url (ws @ rest) lg =
     wait_for_compose url rest
       (lg @ map (\<lambda>s. if s = 0 then log_info ''Waiting for generating new compose'' []
                       else log_info ''ODCS is generating the compose'' []) ws)"
  by (induction ws arbitrary: lg) auto

text \<open>
  C2 (confirmed). Once the compose has been requested, let the compose service answer the
  states \<open>ws\<close>, all 0 or 1, and then a state \<open>s\<close>. Each 0 is logged as waiting and each
  1 as generating, and the loop goes on: with the answers \<open>ws\<close> alone it has not
  returned. On 2 the function returns \<open>new_compose['result_repo']\<close>. On 4 it returns
  \<open>None\<close> after logging the failure with the URL of the compose job, which is the server
  URL without its slashes at either end, then \<open>/odcs/\<close>, the API version, \<open>/composes/\<close>
  and the id of the compose. On any other state it returns \<open>None\<close> after logging the
  unexpected state, without asking again. The failure and the unexpected state both end in
  a bare \<open>return\<close>; they differ in the error that is logged. The states 0, 1, 1, 2 give
  the repository URL; the states 0, 4 give the failure whose log record carries the URL of
  the compose job.
\<close>

theorem prepare_yum_repo_states:
  assumes src: "get_compose_source e (event_nvr event) = Inr (Some src)"
    and ws: "set ws \<subseteq> {0, 1}"
  shows
    "(let new_compose = odcs_new_compose e src ''tag'' (get_packages_for_compose e (event_nvr event));
          compose_url = strip CHR ''/'' (odcs_server_url e) @ ''/odcs/'' @ odcs_api_version e
                          @ ''/composes/'' @ show_int (compose_id new_compose);
          waiting = log_info ''Waiting for generating new compose'' [];
          generating = log_info ''ODCS is generating the compose'' [];
          finished = [log_info ''ODCS has finished to generate compose. Continue to rebuild'' [],
                      log_info ''Repo URL containing packages used to rebuild container: %s''
                        [LStr (result_repo new_compose)]];
          failed = [log_error ''ODCS fails to generate compose: %s'' [LStr compose_url],
                    log_error ''Please consult ODCS to see what is wrong with it'' []];
          lg0 = [log_info (''Generate new compose for rebuild: ''
                           @ ''source: %s, source type: %s, packages: %s'')
                  [LStr src, LStr ''tag'', LStrs (get_packages_for_compose e (event_nvr event))],
                 log_info ''Waiting for ODCS to finish the compose: %s'' [LStr compose_url]];
          lg = lg0 @ map (\<lambda>s. if s = 0 then waiting else generating) ws
      in prepare_yum_repo e ws event = None
       \<and> prepare_yum_repo e (ws @ 2 # rest) event
            = Some (Inr (lg @ finished, Some (result_repo new_compose)))
       \<and> prepare_yum_repo e (ws @ 4 # rest) event = Some (Inr (lg @ failed, None))
       \<and> (s \<notin> {0, 1, 2, 4} \<longrightarrow>
            prepare_yum_repo e (ws @ s # rest) event =
              Some (Inr (lg @ [log_error (''Got unexpected compose state '' @ show_int s
                                           @ '' from ODCS.'') []],
                         None)))
       \<and> prepare_yum_repo e [0, 1, 1, 2] event
            = Some (Inr (lg0 @ [waiting, generating, generating] @ finished,
                         Some (result_repo new_compose)))
       \<and> prepare_yum_repo e [0, 4] event = Some (Inr (lg0 @ [waiting] @ failed, None)))"
proof -
  have w0: "wait_for_compose url ws lg = None" for url lg
    using wait_for_compose_waiting[OF ws, of url "[]" lg] by simp
  show ?thesis
    using src wait_for_compose_waiting[OF ws] w0
    by (simp add: prepare_yum_repo_def compose_url_of_def Let_def)
qed

theorem prepare_yum_repo_states_witness:
  "get_compose_source sample_env (event_nvr sample_event) = Inr (Some ''f30-candidate'')
   \<and> set [0, 1, 1] \<subseteq> {0, 1 :: int}
   \<and> (7 :: int) \<notin> {0, 1, 2, 4}
   \<and> prepare_yum_repo sample_env [0, 1, 1] sample_event = None
   \<and> prepare_yum_repo sample_env [0, 4] sample_event =
       Some (Inr ([log_info ''Generate new compose for rebuild: source: %s, source type: %s, packages: %s''
                     [LStr ''f30-candidate'', LStr ''tag'', LStrs [''bash'']],
                   log_info ''Waiting for ODCS to finish the compose: %s''
                     [LStr ''https://odcs.example.com/odcs/1/composes/7''],
                   log_info ''Waiting for generating new compose'' [],
                   log_error ''ODCS fails to generate compose: %s''
                     [LStr ''https://odcs.example.com/odcs/1/composes/7''],
                   log_error ''Please consult ODCS to see what is wrong with it'' []],
                  None))
   \<and> prepare_yum_repo sample_env [0, 1, 1, 2] sample_event =
       Some (Inr ([log_info ''Generate new compose for rebuild: source: %s, source type: %s, packages: %s''
                     [LStr ''f30-candidate'', LStr ''tag'', LStrs [''bash'']],
                   log_info ''Waiting for ODCS to finish the compose: %s''
                     [LStr ''https://odcs.example.com/odcs/1/composes/7''],
                   log_info ''Waiting for generating new compose'' [],
                   log_info ''ODCS is generating the compose'' [],
                   log_info ''ODCS is generating the compose'' [],
                   log_info ''ODCS has finished to generate compose. Continue to rebuild'' [],
                   log_info ''Repo URL containing packages used to rebuild container: %s''
                     [LStr ''https://odcs.example.com/composes/7/repo'']],
                  Some ''https://odcs.example.com/composes/7/repo''))
   \<and> prepare_yum_repo sample_env [0, 1, 1, 7, 2] sample_event =
       Some (Inr ([log_info ''Generate new compose for rebuild: source: %s, source type: %s, packages: %s''
                     [LStr ''f30-candidate'', LStr ''tag'', LStrs [''bash'']],
                   log_info ''Waiting for ODCS to finish the compose: %s''
                     [LStr ''https://odcs.example.com/odcs/1/composes/7''],
                   log_info ''Waiting for generating new compose'' [],
                   log_info ''ODCS is generating the compose'' [],
                   log_info ''ODCS is generating the compose'' [],
                   log_error ''Got unexpected compose state 7 from ODCS.'' []],
                  None))"
proof -
  have h1: "get_compose_source sample_env (event_nvr sample_event) = Inr (Some ''f30-candidate'')"
    by (simp add: get_compose_source_def sample_env_def sample_event_def endswith_def)
  have h2: "set [0, 1, 1] \<subseteq> {0, 1 :: int}" by simp
  have h3: "(7 :: int) \<notin> {0, 1, 2, 4}" by simp
  have seven: "show_int 7 = ''7''"
    by code_simp
  have url: "strip CHR ''/'' (odcs_server_url sample_env) = ''https://odcs.example.com''"
    "odcs_api_version sample_env = ''1''"
    "compose_id (odcs_new_compose sample_env src ty pkgs) = 7" for src ty pkgs
    by (simp_all add: sample_env_def strip_def rstrip_def)
  have repo: "result_repo (odcs_new_compose sample_env src ty pkgs)
             = ''https://odcs.example.com/composes/7/repo''" for src ty pkgs
    by (simp add: sample_env_def)
  have pkgs: "get_packages_for_compose sample_env (event_nvr sample_event) = [''bash'']"
    by (simp add: get_packages_for_compose_def sample_env_def)
  from prepare_yum_repo_states[OF h1 h2, where s = 7 and rest = "[2]"] h3
  have "prepare_yum_repo sample_env [0, 1, 1] sample_event = None"
    and "prepare_yum_repo sample_env [0, 4] sample_event =
       Some (Inr ([log_info ''Generate new compose for rebuild: source: %s, source type: %s, packages: %s''
                     [LStr ''f30-candidate'', LStr ''tag'', LStrs [''bash'']],
                   log_info ''Waiting for ODCS to finish the compose: %s''
                     [LStr ''https://odcs.example.com/odcs/1/composes/7''],
                   log_info ''Waiting for generating new compose'' [],
                   log_error ''ODCS fails to generate compose: %s''
                     [LStr ''https://odcs.example.com/odcs/1/composes/7''],
                   log_error ''Please consult ODCS to see what is wrong with it'' []],
                  None))"
    and "prepare_yum_repo sample_env [0, 1, 1, 2] sample_event =
       Some (Inr ([log_info ''Generate new compose for rebuild: source: %s, source type: %s, packages: %s''
                     [LStr ''f30-candidate'', LStr ''tag'', LStrs [''bash'']],
                   log_info ''Waiting for ODCS to finish the compose: %s''
                     [LStr ''https://odcs.example.com/odcs/1/composes/7''],
                   log_info ''Waiting for generating new compose'' [],
                   log_info ''ODCS is generating the compose'' [],
                   log_info ''ODCS is generating the compose'' [],
                   log_info ''ODCS has finished to generate compose. Continue to rebuild'' [],
                   log_info ''Repo URL containing packages used to rebuild container: %s''
                     [LStr ''https://odcs.example.com/composes/7/repo'']],
                  Some ''https://odcs.example.com/composes/7/repo''))"
    and "prepare_yum_repo sample_env [0, 1, 1, 7, 2] sample_event =
       Some (Inr ([log_info ''Generate new compose for rebuild: source: %s, source type: %s, packages: %s''
                     [LStr ''f30-candidate'', LStr ''tag'', LStrs [''bash'']],
                   log_info ''Waiting for ODCS to finish the compose: %s''
                     [LStr ''https://odcs.example.com/odcs/1/composes/7''],
                   log_info ''Waiting for generating new compose'' [],
                   log_info ''ODCS is generating the compose'' [],
                   log_info ''ODCS is generating the compose'' [],
                   log_error ''Got unexpected compose state 7 from ODCS.'' []],
                  None))"
    by (simp_all add: Let_def url repo pkgs seven)
  with h1 h2 h3 show ?thesis by (intro conjI)
qed

section \<open>Recording the batches\<close>

lemma record_batch_step:
  assumes "depends_on_ok d event
             (case parent img of None \<Rightarrow> None | Some p \<Rightarrow> builds (brew_build p))"
  shows "record_batch event (img # batch) (builds, d) =
     record_batch event batch (builds(brew_build img \<mapsto> length d), d @ [new_row event builds img])"
  using assms
  by (simp add: record_build_def new_row_def Let_def split: option.splits)

lemma record_batch_append:
  "record_batch event (xs @ ys) st =
     (case record_batch event xs st of
        (Some err, st1) \<Rightarrow> (Some err, st1)
      | (None, st1) \<Rightarrow> record_batch event ys st1)"
proof (induction xs arbitrary: st)
  case Nil
  then show ?case by (cases st) simp
next
  case (Cons x xs)
  obtain b d where st: "st = (b, d)" by (cases st)
  show ?case
    unfolding st append_Cons
    by (simp add: Cons.IH Let_def split: sum.splits prod.splits)
qed

text \<open>The outer loop only sequences the batches: the table depends on their concatenation.\<close>

lemma record_batches_loop_concat:
  "record_batches_loop event batches st = record_batch event (concat batches) st"
proof (induction batches arbitrary: st)
  case Nil
  then show ?case by (cases st) simp
next
  case (Cons b bs)
  then show ?case
    by (simp add: record_batch_append split: prod.splits option.splits)
qed

lemma recorded_ok_all: "recorded_ok event d imgs (record_batch event imgs (Map.empty, d))"
proof (induction imgs rule: rev_induct)
  case Nil
  then show ?case by (simp add: recorded_ok_def)
next
  case (snoc img imgs)
  obtain er B D where st: "record_batch event imgs (Map.empty, d) = (er, B, D)"
    by (cases "record_batch event imgs (Map.empty, d)")
  from snoc st have ok: "recorded_ok event d imgs (er, B, D)" by simp
  then have er: "er = None" by (simp add: recorded_ok_def)
  from ok have len: "length D = length d + length imgs" and tk: "take (length d) D = d"
    by (simp_all add: recorded_ok_def)
  from ok have bs: "\<And>n b. B n = Some b \<Longrightarrow>
      \<exists>i < length imgs. b = length d + i \<and> brew_build (imgs ! i) = n"
    by (simp add: recorded_ok_def)
  from ok have rows: "\<And>k. k < length imgs \<Longrightarrow>
        ab_state (D ! (length d + k)) = PLANNED
      \<and> ab_external_build_id (D ! (length d + k)) = 0
      \<and> ab_type (D ! (length d + k)) = IMAGE
      \<and> ab_name (D ! (length d + k)) = brew_build (imgs ! k)
      \<and> ab_event_id (D ! (length d + k)) = event_msg_id event
      \<and> (\<forall>b. ab_dep_on (D ! (length d + k)) = Some b \<longrightarrow>
            (\<exists>i < k. \<exists>p. b = length d + i \<and> parent (imgs ! k) = Some p
                \<and> brew_build (imgs ! i) = brew_build p))"
    by (simp add: recorded_ok_def)
  have dep_ok: "depends_on_ok D event
                  (case parent img of None \<Rightarrow> None | Some p \<Rightarrow> B (brew_build p))"
  proof (cases "parent img")
    case None
    then show ?thesis by (simp add: depends_on_ok_def)
  next
    case (Some p)
    show ?thesis
    proof (cases "B (brew_build p)")
      case None
      with Some show ?thesis by (simp add: depends_on_ok_def)
    next
      case (Some b)
      from bs[OF Some] obtain i where i: "i < length imgs" "b = length d + i" by blast
      with rows[OF i(1)] len Some \<open>parent img = Some p\<close> show ?thesis
        by (simp add: depends_on_ok_def)
    qed
  qed
  have step: "record_batch event (imgs @ [img]) (Map.empty, d)
      = (None, B(brew_build img \<mapsto> length D), D @ [new_row event B img])"
    unfolding record_batch_append st er using record_batch_step[OF dep_ok, of "[]"]
    by simp
  show ?case unfolding step recorded_ok_def fst_conv snd_conv
  proof (intro conjI allI impI)
    show "None = None" by simp
    show "length (D @ [new_row event B img]) = length d + length (imgs @ [img])"
      using len by simp
    show "take (length d) (D @ [new_row event B img]) = d"
      using len tk by simp
  next
    fix n b assume "(B(brew_build img \<mapsto> length D)) n = Some b"
    then consider "n = brew_build img" "b = length D" | "B n = Some b" "n \<noteq> brew_build img"
      by (cases "n = brew_build img") simp_all
    then show "\<exists>i<length (imgs @ [img]). b = length d + i \<and> brew_build ((imgs @ [img]) ! i) = n"
    proof cases
      case 1
      then show ?thesis using len by (intro exI[of _ "length imgs"]) simp
    next
      case 2
      from bs[OF 2(1)] obtain i where "i < length imgs" "b = length d + i"
        "brew_build (imgs ! i) = n"
        by blast
      then show ?thesis by (intro exI[of _ i]) (simp add: nth_append)
    qed
  next
    fix k assume k: "k < length (imgs @ [img])"
    show "ab_state ((D @ [new_row event B img]) ! (length d + k)) = PLANNED"
      using k rows[of k] len by (cases "k < length imgs") (auto simp: nth_append new_row_def)
    show "ab_external_build_id ((D @ [new_row event B img]) ! (length d + k)) = 0"
      using k rows[of k] len by (cases "k < length imgs") (auto simp: nth_append new_row_def)
    show "ab_type ((D @ [new_row event B img]) ! (length d + k)) = IMAGE"
      using k rows[of k] len by (cases "k < length imgs") (auto simp: nth_append new_row_def)
    show "ab_name ((D @ [new_row event B img]) ! (length d + k)) = brew_build ((imgs @ [img]) ! k)"
      using k rows[of k] len by (cases "k < length imgs") (auto simp: nth_append new_row_def)
    show "ab_event_id ((D @ [new_row event B img]) ! (length d + k)) = event_msg_id event"
      using k rows[of k] len by (cases "k < length imgs") (auto simp: nth_append new_row_def)
  next
    fix k b assume k: "k < length (imgs @ [img])"
      and dep: "ab_dep_on ((D @ [new_row event B img]) ! (length d + k)) = Some b"
    show "\<exists>i<k. \<exists>p. b = length d + i \<and> parent ((imgs @ [img]) ! k) = Some p
                \<and> brew_build ((imgs @ [img]) ! i) = brew_build p"
    proof (cases "k < length imgs")
      case True
      with dep len have "ab_dep_on (D ! (length d + k)) = Some b" by (simp add: nth_append)
      with rows[OF True] obtain i p where "i < k" "b = length d + i" "parent (imgs ! k) = Some p"
        "brew_build (imgs ! i) = brew_build p" by blast
      with True show ?thesis by (intro exI[of _ i]) (simp add: nth_append)
    next
      case False
      with k have keq: "k = length imgs" by simp
      with dep len have "ab_dep_on (new_row event B img) = Some b" by (simp add: nth_append)
      then obtain p where p: "parent img = Some p" "B (brew_build p) = Some b"
        by (auto simp: new_row_def split: option.splits)
      from bs[OF p(2)] obtain i where "i < length imgs" "b = length d + i"
        "brew_build (imgs ! i) = brew_build p" by blast
      with keq p(1) show ?thesis by (intro exI[of _ i]) (simp add: nth_append)
    qed
  qed
qed

lemma record_batches_ok:
  "recorded_ok event d (concat batches) (record_batches_loop event batches (Map.empty, d))"
  by (simp add: record_batches_loop_concat recorded_ok_all)

text \<open>The facts of the invariant, read off the result of \<open>_record_batches\<close>.\<close>

lemma record_batches_rows:
  "fst (record_batches batches event d) = None
   \<and> length (snd (record_batches batches event d)) = length d + length (concat batches)
   \<and> take (length d) (snd (record_batches batches event d)) = d
   \<and> (\<forall>k < length (concat batches).
        ab_state (snd (record_batches batches event d) ! (length d + k)) = PLANNED
      \<and> ab_external_build_id (snd (record_batches batches event d) ! (length d + k)) = 0
      \<and> ab_event_id (snd (record_batches batches event d) ! (length d + k)) = event_msg_id event
      \<and> (\<forall>b. ab_dep_on (snd (record_batches batches event d) ! (length d + k)) = Some b \<longrightarrow>
            (\<exists>i < k. \<exists>p. b = length d + i \<and> parent (concat batches ! k) = Some p
                \<and> brew_build (concat batches ! i) = brew_build p)))"
proof -
  obtain er B D where r: "record_batches_loop event batches (Map.empty, d) = (er, B, D)"
    by (cases "record_batches_loop event batches (Map.empty, d)")
  have "recorded_ok event d (concat batches) (er, B, D)"
    using record_batches_ok[of event d batches] r by simp
  then show ?thesis
    unfolding record_batches_def r recorded_ok_def by simp
qed

subsection \<open>Batch indices\<close>






subsection \<open>The recorded builds\<close>

text \<open>
  C8 (confirmed). \<open>_record_batches\<close> raises no error, adds one build per image of the
  batch list on top of the table, leaves the rows that were there untouched, and every
  build it adds is in state PLANNED with external build id 0, for every batch list, every
  event and every table.
\<close>

theorem record_batches_planned:
  "fst (record_batches batches event d) = None
   \<and> length (snd (record_batches batches event d)) = length d + length (concat batches)
   \<and> take (length d) (snd (record_batches batches event d)) = d
   \<and> (\<forall>b \<in> set (drop (length d) (snd (record_batches batches event d))).
        ab_state b = PLANNED \<and> ab_external_build_id b = 0)"
proof -
  let ?D = "snd (record_batches batches event d)"
  note rows = record_batches_rows[of batches event d]
  from rows have len: "length ?D = length d + length (concat batches)" by blast
  have "ab_state b = PLANNED \<and> ab_external_build_id b = 0" if "b \<in> set (drop (length d) ?D)" for b
  proof -
    from that obtain k where k: "k < length (drop (length d) ?D)" "b = drop (length d) ?D ! k"
      by (auto simp: in_set_conv_nth)
    with len have "k < length (concat batches)" "b = ?D ! (length d + k)" by simp_all
    with rows show ?thesis by blast
  qed
  with rows show ?thesis by blast
qed

theorem record_batches_planned_witness:
  "fst (record_batches [[image_X], [image_Y]] sample_event []) = None
   \<and> length (snd (record_batches [[image_X], [image_Y]] sample_event [])) = 2
   \<and> map ab_name (snd (record_batches [[image_X], [image_Y]] sample_event [])) = [''X'', ''Y'']
   \<and> map ab_state (snd (record_batches [[image_X], [image_Y]] sample_event []))
        = [PLANNED, PLANNED]
   \<and> map ab_external_build_id (snd (record_batches [[image_X], [image_Y]] sample_event []))
        = [0, 0]"
proof -
  let ?R = "record_batches [[image_X], [image_Y]] sample_event []"
  note inst = record_batches_planned[of "[[image_X], [image_Y]]" sample_event "[]"]
  from inst have ok: "fst ?R = None" by (rule conjunct1)
  from inst have "length (snd ?R) = length ([] :: db) + length (concat [[image_X], [image_Y]])"
    by (elim conjE)
  then have len: "length (snd ?R) = 2" by simp
  have rows: "map ab_name (snd ?R) = [''X'', ''Y'']" "map ab_state (snd ?R) = [PLANNED, PLANNED]"
    "map ab_external_build_id (snd ?R) = [0, 0]"
    by (simp_all add: record_batches_def record_build_def depends_on_ok_def image_X_def
        image_Y_def Let_def)
  from ok len rows show ?thesis by (intro conjI)
qed



end
